theory Spec2Isabelle
  imports Main
begin

section \<open>Values shared by the three stages\<close>

text \<open>
  The pipeline has three scripts, each a standalone entry point that hands its result to
  the next one through a file: \<open>extract\<close> (HTTP GET, raw JSON file), \<open>transform\<close>
  (raw JSON file to staged CSV) and \<open>load\<close> (staged CSV to the remote table, in batches).

  A parsed JSON document, as \<open>json.load\<close> and \<open>response.json()\<close> return it. An object
  is a Python dict, given by its items (the keys of a dict are distinct). Numbers with a
  fraction are left out: the scripts only pass numbers through.
\<close>

datatype json =
    JNull
  | JBool bool
  | JInt int
  | JStr string
  | JArr "json list"
  | JObj "(string \<times> json) list"

text \<open>
  The exceptions the scripts raise or let through, by their Python names. The
  specification speaks of \<open>ConfigurationError\<close> for the \<open>ValueError\<close> of a missing key, of
  \<open>MissingInputError\<close> for \<open>FileNotFoundError\<close>, of \<open>RemoteError\<close> for what the
  \<open>requests\<close> library raises (\<open>HTTPError\<close>, \<open>RequestException\<close>) and of \<open>LoadError\<close> for
  the \<open>RuntimeError\<close> of a rejected batch. \<open>DateParseError\<close> stands for what
  \<open>pd.to_datetime\<close> raises on a column it cannot convert.
\<close>

datatype error =
    ValueError
  | FileNotFoundError
  | RuntimeError
  | HTTPError
  | RequestException
  | JSONDecodeError
  | AttributeError
  | TypeError
  | KeyError
  | DateParseError

text \<open>Python's truth value of a JSON value, which \<open>or\<close> and \<open>not\<close> test.\<close>

fun truthy :: "json \<Rightarrow> bool" where
  "truthy JNull = False"
| "truthy (JBool b) = b"
| "truthy (JInt i) = (i \<noteq> 0)"
| "truthy (JStr s) = (s \<noteq> [])"
| "truthy (JArr xs) = (xs \<noteq> [])"
| "truthy (JObj kvs) = (kvs \<noteq> [])"

text \<open>\<open>record.get(k)\<close>: the value, or \<open>None\<close> when the key is absent.\<close>

definition dict_get :: "(string \<times> json) list \<Rightarrow> string \<Rightarrow> json" where
  "dict_get d k = (case map_of d k of None \<Rightarrow> JNull | Some v \<Rightarrow> v)"

text \<open>\<open>record.get(k, default)\<close>.\<close>

definition dict_get_default :: "(string \<times> json) list \<Rightarrow> string \<Rightarrow> json \<Rightarrow> json" where
  "dict_get_default d k dflt = (case map_of d k of None \<Rightarrow> dflt | Some v \<Rightarrow> v)"

text \<open>\<open>a or b\<close> on values.\<close>

definition py_or :: "json \<Rightarrow> json \<Rightarrow> json" where
  "py_or a b = (if truthy a then a else b)"


section \<open>extract: the fetcher\<close>

text \<open>
  The process environment, read by \<open>os.getenv\<close>, and the module-level
  \<open>nasa_key = os.getenv("api_key") or os.getenv("NASA_API_KEY")\<close>. A key is a string or
  \<open>None\<close>; \<open>None\<close> and the empty string are the false ones.
\<close>

type_synonym environ = "string \<rightharpoonup> string"

definition key_missing :: "string option \<Rightarrow> bool" where
  "key_missing k = (case k of None \<Rightarrow> True | Some s \<Rightarrow> s = [])"

definition nasa_key :: "environ \<Rightarrow> string option" where
  "nasa_key env =
     (if \<not> key_missing (env ''api_key'') then env ''api_key'' else env ''NASA_API_KEY'')"

text \<open>
  The argument \<open>api_key=nasa_key\<close>: a call either leaves it to the default or passes a
  value of its own, which may be \<open>None\<close> or empty.
\<close>

datatype key_arg = Default | Given "string option"

definition key_in_effect :: "environ \<Rightarrow> key_arg \<Rightarrow> string option" where
  "key_in_effect env arg = (case arg of Default \<Rightarrow> nasa_key env | Given k \<Rightarrow> k)"

text \<open>
  What \<open>requests.get(url, params=params, timeout=15)\<close> comes back with: an exception of
  the library (time-out, no connection), or a response with a status code and a body,
  which is a JSON document or not. The remote API is a parameter of the model: a function
  of the key and of \<open>days_back\<close> (the dates of the window come from the clock).
\<close>

datatype http_result = RequestFailed | Reply nat "json option"

type_synonym api = "string \<Rightarrow> int \<Rightarrow> http_result"

text \<open>The fetcher's world: the raw artifact \<open>data/raw/nasa_data.json\<close> and the GETs sent.\<close>

record fetch_world =
  raw_file :: "json option"
  gets_sent :: nat

text \<open>
  \<open>len(data)\<close> in the progress line, printed once the file is written: a list and a
  string have a length, \<open>None\<close>, a boolean and a number have none and raise
  \<open>TypeError\<close> there.
\<close>

fun has_len :: "json \<Rightarrow> bool" where
  "has_len JNull = False"
| "has_len (JBool b) = False"
| "has_len (JInt i) = False"
| "has_len _ = True"

text \<open>
  The function. The dates of the request come from the clock and \<open>days_back\<close> and
  are left to the API parameter; a \<open>days_back\<close> beyond what the date arithmetic of
  the library can hold, which raises \<open>OverflowError\<close> before the request, is not in the
  model.
\<close>

definition extract_nasa_data ::
  "environ \<Rightarrow> api \<Rightarrow> key_arg \<Rightarrow> int \<Rightarrow> fetch_world \<Rightarrow> (error + json) \<times> fetch_world" where
  "extract_nasa_data env remote arg days_back w =
     (case key_in_effect env arg of
        None \<Rightarrow> (Inl ValueError, w)
      | Some api_key \<Rightarrow>
          if api_key = [] then (Inl ValueError, w)
          else
            let w1 = w\<lparr>gets_sent := gets_sent w + 1\<rparr> in
            (case remote api_key days_back of
               RequestFailed \<Rightarrow> (Inl RequestException, w1)
             | Reply status body \<Rightarrow>
                 if 400 \<le> status \<and> status < 600 then (Inl HTTPError, w1)
                 else
                   (case body of
                      None \<Rightarrow> (Inl JSONDecodeError, w1)
                    | Some data \<Rightarrow>
                        let data' = (case data of JObj kvs \<Rightarrow> JArr [data] | _ \<Rightarrow> data);
                            w2 = w1\<lparr>raw_file := Some data'\<rparr>
                        in if has_len data' then (Inr data', w2) else (Inl TypeError, w2))))"

text \<open>
  The condition of the specification for the missing-key failure, in its own words: no
  credential is available from any recognized source, that is, neither of the two
  environment variables nor an explicit argument supplies a non-empty key.
\<close>

definition no_credential_available :: "environ \<Rightarrow> key_arg \<Rightarrow> bool" where
  "no_credential_available env arg =
     (key_missing (env ''api_key'') \<and> key_missing (env ''NASA_API_KEY'') \<and>
      (case arg of Default \<Rightarrow> True | Given k \<Rightarrow> key_missing k))"


section \<open>transform: the transformer\<close>

text \<open>
  A row of the staged table, with the five columns the transformer projects. The values
  are the record's own values (strings, as a rule; \<open>None\<close> for an absent field).
\<close>

record staged_row =
  r_date :: json
  r_title :: json
  r_explanation :: json
  r_media_type :: json
  r_image_url :: json

text \<open>The dict appended to \<open>records\<close> for one input record.\<close>

definition project_record :: "(string \<times> json) list \<Rightarrow> staged_row" where
  "project_record rec =
     \<lparr> r_date = dict_get rec ''date'',
       r_title = dict_get rec ''title'',
       r_explanation = dict_get rec ''explanation'',
       r_media_type = dict_get_default rec ''media_type'' (JStr ''image''),
       r_image_url = py_or (dict_get rec ''url'') (dict_get rec ''thumbnail_url'') \<rparr>"

text \<open>
  The loop \<open>for record in data\<close>. Only a dict has \<open>.get\<close>: any other element raises
  \<open>AttributeError\<close> when the loop reaches it.
\<close>

fun project_all :: "json list \<Rightarrow> error + staged_row list" where
  "project_all [] = Inr []"
| "project_all (JObj rec # xs) =
     (case project_all xs of Inl e \<Rightarrow> Inl e | Inr rs \<Rightarrow> Inr (project_record rec # rs))"
| "project_all (_ # xs) = Inl AttributeError"

text \<open>
  \<open>if isinstance(data, dict): data = [data]\<close>, then the loop over \<open>data\<close>. A list is
  walked element by element, a string character by character (each a string, with no
  \<open>.get\<close>), and \<open>None\<close>, a boolean and a number cannot be iterated at all.
\<close>

fun collect_records :: "json \<Rightarrow> error + staged_row list" where
  "collect_records (JObj rec) = project_all [JObj rec]"
| "collect_records (JArr xs) = project_all xs"
| "collect_records (JStr s) = (if s = [] then Inr [] else Inl AttributeError)"
| "collect_records _ = Inl TypeError"

text \<open>
  The staged CSV as \<open>df.to_csv(output_path, index=False)\<close> writes it: the header line
  with the names of the frame's columns, then one line per row. \<open>pd.DataFrame(records)\<close>
  takes its columns from the keys of the dicts, so a frame of no records has no column
  and its header line is empty. The cells are kept as the records' values; how pandas
  types a column and writes its cells as text is not in the model.
\<close>

record staged_table =
  header :: "string list"
  data_rows :: "staged_row list"

definition to_frame :: "staged_row list \<Rightarrow> staged_table" where
  "to_frame records =
     \<lparr> header = (if records = [] then []
                 else [''date'', ''title'', ''explanation'', ''media_type'', ''image_url'']),
       data_rows = records \<rparr>"

text \<open>
  The transformer's world: the raw artifact (a JSON document when present), the
  directory \<open>data/staged\<close> and the staged artifact in it.
\<close>

record transform_world =
  raw_json :: "json option"
  staged_dir :: bool
  staged_csv :: "staged_table option"

definition transform_nasa_data ::
  "transform_world \<Rightarrow> (error + staged_table) \<times> transform_world" where
  "transform_nasa_data w =
     (let w1 = w\<lparr>staged_dir := True\<rparr> in
      case raw_json w1 of
        None \<Rightarrow> (Inl FileNotFoundError, w1)
      | Some data \<Rightarrow>
          (case collect_records data of
             Inl e \<Rightarrow> (Inl e, w1)
           | Inr records \<Rightarrow>
               let df = to_frame records
               in (Inr df, w1\<lparr>staged_csv := Some df\<rparr>)))"



section \<open>load: the loader\<close>

text \<open>
  A cell of the frame \<open>pd.read_csv\<close> returns: a string, the missing-value marker
  \<open>NaN\<close> of an empty field, or a number or boolean of a column that parsed as one
  (carried by the text \<open>str()\<close> gives for it, which is all the loader asks of it).
  \<open>None\<close> appears once \<open>where(pd.notnull(...), None)\<close> has replaced the markers.
\<close>

datatype cell = CNaN | CNone | CStr string | CScalar string

text \<open>
  A frame: its column names, and its rows as \<open>to_dict("records")\<close> hands them out,
  from column name to cell. A column with no cell in a row reads as \<open>NaN\<close>
  (\<open>read_csv\<close> pads short lines).
\<close>

type_synonym frame_row = "string \<rightharpoonup> cell"

record dataframe =
  columns :: "string list"
  rows :: "frame_row list"

definition cell_at :: "frame_row \<Rightarrow> string \<Rightarrow> cell" where
  "cell_at r k = (case r k of None \<Rightarrow> CNaN | Some c \<Rightarrow> c)"

text \<open>
  \<open>df["date"] = pd.to_datetime(df["date"]).dt.strftime('%Y-%m-%d %H:%M:%S')\<close>. The
  conversion of the column is the library's and is a parameter: it gives the new column,
  or \<open>None\<close> when it raises. Assigning a column of another length raises.
\<close>

type_synonym date_format = "cell list \<Rightarrow> cell list option"

definition normalize_dates :: "date_format \<Rightarrow> dataframe \<Rightarrow> error + dataframe" where
  "normalize_dates fmt df =
     (if ''date'' \<notin> set (columns df) then Inl KeyError
      else
        (case fmt (map (\<lambda>r. cell_at r ''date'') (rows df)) of
           None \<Rightarrow> Inl DateParseError
         | Some ds \<Rightarrow>
             if length ds \<noteq> length (rows df) then Inl ValueError
             else Inr (df\<lparr>rows := map2 (\<lambda>r d. r(''date'' \<mapsto> d)) (rows df) ds\<rparr>)))"

text \<open>
  The conversion on ISO dates such as the API's \<open>2024-01-01\<close>: midnight of that day;
  an empty field stays missing. It serves as the instance of the parameter in examples.
\<close>

definition midnight :: date_format where
  "midnight ds =
     Some (map (\<lambda>c. case c of CStr s \<Rightarrow> CStr (s @ '' 00:00:00'') | _ \<Rightarrow> CNaN) ds)"

text \<open>
  \<open>batch_df.where(pd.notnull(batch_df), None).to_dict("records")\<close>, for one row: a
  missing value becomes \<open>None\<close>, and the dict has the frame's columns as its keys.
  (In a column that pandas holds as numbers the marker stays \<open>NaN\<close>, which an
  f-string writes \<open>nan\<close>; the model writes \<open>None\<close> for every missing value. Both
  have no \<open>replace\<close>.)
\<close>

definition notnull :: "cell \<Rightarrow> bool" where
  "notnull c = (c \<noteq> CNaN \<and> c \<noteq> CNone)"

definition none_if_null :: "cell \<Rightarrow> cell" where
  "none_if_null c = (if notnull c then c else CNone)"

definition to_record :: "string list \<Rightarrow> frame_row \<Rightarrow> frame_row" where
  "to_record cols r =
     (\<lambda>k. if k \<in> set cols then Some (none_if_null (cell_at r k)) else None)"

text \<open>What an f-string writes for a value.\<close>

fun py_str :: "cell \<Rightarrow> string" where
  "py_str CNaN = ''nan''"
| "py_str CNone = ''None''"
| "py_str (CStr s) = s"
| "py_str (CScalar s) = s"

text \<open>
  \<open>x.replace("'", "''")\<close>: on a string, every single quote doubled; \<open>None\<close> and
  numbers have no \<open>replace\<close>.
\<close>

definition quote :: char where
  "quote = CHR 0x27"

definition double_quotes :: "string \<Rightarrow> string" where
  "double_quotes s = concat (map (\<lambda>c. if c = quote then [quote, quote] else [c]) s)"

fun replace_quotes :: "cell \<Rightarrow> error + string" where
  "replace_quotes (CStr s) = Inr (double_quotes s)"
| "replace_quotes _ = Inl AttributeError"

text \<open>The five values interpolated for one row, in the order the loop body computes them.\<close>

record sql_values =
  date_val :: string
  title_val :: string
  explanation_val :: string
  media_type_val :: string
  image_url_val :: string

definition row_values :: "frame_row \<Rightarrow> error + sql_values" where
  "row_values r =
     (case r ''date'' of None \<Rightarrow> Inl KeyError | Some d \<Rightarrow>
     (case r ''title'' of None \<Rightarrow> Inl KeyError | Some t \<Rightarrow>
     (case replace_quotes t of Inl e \<Rightarrow> Inl e | Inr tv \<Rightarrow>
     (case r ''explanation'' of None \<Rightarrow> Inl KeyError | Some x \<Rightarrow>
     (case replace_quotes x of Inl e \<Rightarrow> Inl e | Inr xv \<Rightarrow>
     (case r ''media_type'' of None \<Rightarrow> Inl KeyError | Some m \<Rightarrow>
     (case replace_quotes (case r ''image_url'' of None \<Rightarrow> CStr [] | Some u \<Rightarrow> u) of
        Inl e \<Rightarrow> Inl e
      | Inr uv \<Rightarrow>
          Inr \<lparr> date_val = py_str d, title_val = tv, explanation_val = xv,
                media_type_val = py_str m, image_url_val = uv \<rparr>)))))))"

text \<open>
  The f-string appended to \<open>values\<close>:
  \<open>('{date_val}', '{title_val}', '{explanation_val}', '{media_type_val}', '{image_url_val}')\<close>.
\<close>

definition format_values :: "sql_values \<Rightarrow> string" where
  "format_values v =
     ''('' @ [quote] @ date_val v @ [quote] @ '', '' @
     [quote] @ title_val v @ [quote] @ '', '' @
     [quote] @ explanation_val v @ [quote] @ '', '' @
     [quote] @ media_type_val v @ [quote] @ '', '' @
     [quote] @ image_url_val v @ [quote] @ '')''"

text \<open>The inner loop \<open>for r in batch\<close>: the first row that raises ends it.\<close>

fun build_values :: "frame_row list \<Rightarrow> error + string list" where
  "build_values [] = Inr []"
| "build_values (r # rs) =
     (case row_values r of
        Inl e \<Rightarrow> Inl e
      | Inr v \<Rightarrow>
          (case build_values rs of
             Inl e \<Rightarrow> Inl e
           | Inr vs \<Rightarrow> Inr (format_values v # vs)))"

text \<open>\<open>', '.join(values)\<close>.\<close>

fun join_comma :: "string list \<Rightarrow> string" where
  "join_comma [] = []"
| "join_comma [v] = v"
| "join_comma (v # vs) = v @ '', '' @ join_comma vs"

text \<open>The statement text \<open>insert_sql\<close>, with the line breaks and indentation of the source.\<close>

definition nl :: char where
  "nl = CHR 0x0A"

definition insert_sql :: "string list \<Rightarrow> string" where
  "insert_sql vals =
     [nl] @ ''        INSERT INTO nasa_apod (date, title, explanation, media_type, image_url)'' @
     [nl] @ ''        VALUES '' @ join_comma vals @
     [nl] @ ''        ON CONFLICT (date) DO UPDATE SET'' @
     [nl] @ ''            title = EXCLUDED.title,'' @
     [nl] @ ''            explanation = EXCLUDED.explanation,'' @
     [nl] @ ''            media_type = EXCLUDED.media_type,'' @
     [nl] @ ''            image_url = EXCLUDED.image_url;'' @
     [nl] @ ''        ''"

text \<open>
  What \<open>requests.post(..., timeout=15)\<close> comes back with: an exception of the library,
  or a response, of which the loader reads \<open>resp.ok\<close>. The endpoint is a parameter of
  the model: it answers the call with a given number (counted from 0) and statement.
\<close>

datatype post_result = PostFailed | Answered bool

type_synonym endpoint = "nat \<Rightarrow> string \<Rightarrow> post_result"

text \<open>
  The table \<open>nasa_apod(date PRIMARY KEY, title, explanation, media_type, image_url)\<close>,
  from the key to the other four columns.
\<close>

record stored_row =
  s_title :: string
  s_explanation :: string
  s_media_type :: string
  s_image_url :: string

type_synonym nasa_apod = "string \<rightharpoonup> stored_row"

text \<open>
  Modelled from the spec: the target store executing the upsert statement of a batch,
  which is no code of the scripts. In the specification's words the statement, keyed on
  \<open>date\<close>, inserts new rows and, on key conflict, overwrites \<open>title\<close>, \<open>explanation\<close>,
  \<open>media_type\<close> and \<open>image_url\<close> with the incoming values, the last row winning when a
  date appears twice; each batch is an independent unit of work, so that a statement the
  store rejects changes nothing. The key of a row is its date as the statement writes it.
\<close>

definition date_key :: "frame_row \<Rightarrow> string" where
  "date_key r = py_str (cell_at r ''date'')"

text \<open>Modelled from the spec: the incoming values of a row, the strings its tuple denotes.\<close>

definition incoming :: "frame_row \<Rightarrow> stored_row" where
  "incoming r =
     \<lparr> s_title = py_str (cell_at r ''title''),
       s_explanation = py_str (cell_at r ''explanation''),
       s_media_type = py_str (cell_at r ''media_type''),
       s_image_url = py_str (cell_at r ''image_url'') \<rparr>"

text \<open>Modelled from the spec: the upsert of one row, an insert or an overwrite by key.\<close>

definition upsert_row :: "frame_row \<Rightarrow> nasa_apod \<Rightarrow> nasa_apod" where
  "upsert_row r t = t(date_key r \<mapsto> incoming r)"

text \<open>Modelled from the spec: an accepted statement, the upserts of its rows in order.\<close>

definition upsert_batch :: "frame_row list \<Rightarrow> nasa_apod \<Rightarrow> nasa_apod" where
  "upsert_batch batch t = fold upsert_row batch t"

text \<open>
  The loader's world: the staged artifact (the frame \<open>read_csv\<close> makes of it, when
  present), the remote table, and the statements posted so far, in order.
\<close>

record load_world =
  staged_file :: "dataframe option"
  store :: nasa_apod
  posted :: "string list"

definition batch_size :: nat where
  "batch_size = 20"

text \<open>\<open>range(i, n, batch_size)\<close>.\<close>

function range_from :: "nat \<Rightarrow> nat \<Rightarrow> nat list" where
  "range_from i n = (if i < n then i # range_from (i + batch_size) n else [])"
  by pat_completeness auto
termination
  by (relation "measure (\<lambda>(i, n). n - i)") (auto simp: batch_size_def)

declare range_from.simps [simp del]

text \<open>\<open>df.iloc[i:j]\<close> on the rows, for \<open>0 \<le> i \<le> j\<close>.\<close>

definition iloc :: "'a list \<Rightarrow> nat \<Rightarrow> nat \<Rightarrow> 'a list" where
  "iloc xs i j = take (j - i) (drop i xs)"

text \<open>The dict made of row \<open>i\<close>, and the dicts \<open>batch\<close> of the iteration that starts at row \<open>i\<close>.\<close>

definition record_at :: "dataframe \<Rightarrow> nat \<Rightarrow> frame_row" where
  "record_at df i = to_record (columns df) (rows df ! i)"

definition batch_at :: "dataframe \<Rightarrow> nat \<Rightarrow> frame_row list" where
  "batch_at df i = map (to_record (columns df)) (iloc (rows df) i (i + batch_size))"

text \<open>
  The statement text of the iteration that starts at row \<open>i\<close>, or the exception
  raised while its values are built.
\<close>

definition batch_statement :: "dataframe \<Rightarrow> nat \<Rightarrow> error + string" where
  "batch_statement df i =
     (case build_values (batch_at df i) of
        Inl e \<Rightarrow> Inl e
      | Inr vals \<Rightarrow> Inr (insert_sql vals))"

text \<open>
  The loop over the batch starts. An iteration builds the statement (and may raise there,
  before anything is sent), posts it, raises on an exception of the library or on a
  response that is not \<open>ok\<close>, and goes on to the next batch otherwise, the store
  having executed the statement. The pause \<open>time.sleep(0.5)\<close> and the progress line
  have no part in the model.
\<close>

fun load_loop :: "endpoint \<Rightarrow> dataframe \<Rightarrow> nat list \<Rightarrow> load_world \<Rightarrow> (error + unit) \<times> load_world" where
  "load_loop ep df [] w = (Inr (), w)"
| "load_loop ep df (i # is) w =
     (case batch_statement df i of
        Inl e \<Rightarrow> (Inl e, w)
      | Inr sql \<Rightarrow>
          let w1 = w\<lparr>posted := posted w @ [sql]\<rparr> in
          (case ep (length (posted w)) sql of
             PostFailed \<Rightarrow> (Inl RequestException, w1)
           | Answered resp_ok \<Rightarrow>
               if \<not> resp_ok then (Inl RuntimeError, w1)
               else load_loop ep df is (w1\<lparr>store := upsert_batch (batch_at df i) (store w1)\<rparr>)))"

definition load_to_supabase ::
  "date_format \<Rightarrow> endpoint \<Rightarrow> load_world \<Rightarrow> (error + unit) \<times> load_world" where
  "load_to_supabase fmt ep w =
     (case staged_file w of
        None \<Rightarrow> (Inl FileNotFoundError, w)
      | Some df0 \<Rightarrow>
          (case normalize_dates fmt df0 of
             Inl e \<Rightarrow> (Inl e, w)
           | Inr df \<Rightarrow> load_loop ep df (range_from 0 (length (rows df))) w))"


section \<open>The store: the statement as PostgreSQL reads it\<close>





























section \<open>Example inputs\<close>

text \<open>
  Two records as the API returns them: a picture, and a video of the same day with a
  thumbnail and no \<open>url\<close>.
\<close>

definition apod_image :: "(string \<times> json) list" where
  "apod_image =
     [(''date'', JStr ''2024-01-01''), (''title'', JStr ''Orion''),
      (''explanation'', JStr ''A nebula''), (''media_type'', JStr ''image''),
      (''url'', JStr ''https://apod/orion.jpg'')]"

definition apod_video :: "(string \<times> json) list" where
  "apod_video =
     [(''date'', JStr ''2024-01-01''), (''title'', JStr ''Eclipse''),
      (''explanation'', JStr ''A film''), (''media_type'', JStr ''video''),
      (''thumbnail_url'', JStr ''https://apod/eclipse.png'')]"

text \<open>An environment with the second of the two variables set, and an API that answers.\<close>

definition demo_env :: environ where
  "demo_env = [''NASA_API_KEY'' \<mapsto> ''DEMO_KEY'']"

definition demo_api :: api where
  "demo_api k d = Reply 200 (Some (JArr [JObj apod_image, JObj apod_video]))"

definition single_api :: api where
  "single_api k d = Reply 200 (Some (JObj apod_image))"

text \<open>Staged rows, the five columns, an endpoint that accepts every call and one that
  rejects the call with a given number.\<close>

definition staged_cols :: "string list" where
  "staged_cols = [''date'', ''title'', ''explanation'', ''media_type'', ''image_url'']"

definition row_orion :: frame_row where
  "row_orion =
     [''date'' \<mapsto> CStr ''2024-01-01'', ''title'' \<mapsto> CStr ''Orion'',
      ''explanation'' \<mapsto> CStr ''A nebula'', ''media_type'' \<mapsto> CStr ''image'',
      ''image_url'' \<mapsto> CStr ''https://apod/orion.jpg'']"


definition row_untitled :: frame_row where
  "row_untitled =
     [''date'' \<mapsto> CStr ''2024-01-02'', ''title'' \<mapsto> CNaN,
      ''explanation'' \<mapsto> CStr ''No title'', ''media_type'' \<mapsto> CStr ''image'',
      ''image_url'' \<mapsto> CStr ''https://apod/x.jpg'']"

definition row_quoted :: frame_row where
  "row_quoted =
     [''date'' \<mapsto> CStr ''2024-01-03 00:00:00'',
      ''title'' \<mapsto> CStr (''Orion'' @ [quote] @ ''s Belt''),
      ''explanation'' \<mapsto> CStr ''Three stars'', ''media_type'' \<mapsto> CStr (''im'' @ [quote] @ ''age''),
      ''image_url'' \<mapsto> CStr ''https://apod/belt.jpg'']"

definition accept_all :: endpoint where
  "accept_all k sql = Answered True"

definition reject_call :: "nat \<Rightarrow> endpoint" where
  "reject_call c k sql = Answered (k \<noteq> c)"

text \<open>The staged frame of given rows, a world with that frame staged, an empty table and
  nothing posted, and a row as \<open>midnight\<close> leaves it.\<close>

definition staged_frame :: "frame_row list \<Rightarrow> dataframe" where
  "staged_frame rs = \<lparr>columns = staged_cols, rows = rs\<rparr>"

definition fresh_world :: "frame_row list \<Rightarrow> load_world" where
  "fresh_world rs = \<lparr> staged_file = Some (staged_frame rs), store = Map.empty, posted = [] \<rparr>"

definition at_midnight :: "frame_row \<Rightarrow> frame_row" where
  "at_midnight r =
     r(''date'' \<mapsto> (case cell_at r ''date'' of CStr s \<Rightarrow> CStr (s @ '' 00:00:00'') | _ \<Rightarrow> CNaN))"






section \<open>The fetcher\<close>

text \<open>
  C8. For a response that is valid (the key is there, the status is no error, the body is
  JSON), the collection the fetcher writes and returns is the array the API returned,
  item for item and so of the same length; a single object is written as the array of
  that one object. One GET is sent.
\<close>

theorem extract_collection:
  assumes "key_in_effect env arg = Some k" and "k \<noteq> []"
    and "remote k days_back = Reply status (Some body)"
    and "\<not> (400 \<le> status \<and> status < 600)"
  shows "(body = JArr items \<longrightarrow>
           extract_nasa_data env remote arg days_back w =
             (Inr (JArr items),
              w\<lparr>gets_sent := gets_sent w + 1, raw_file := Some (JArr items)\<rparr>)) \<and>
         (body = JObj kvs \<longrightarrow>
           extract_nasa_data env remote arg days_back w =
             (Inr (JArr [JObj kvs]),
              w\<lparr>gets_sent := gets_sent w + 1, raw_file := Some (JArr [JObj kvs])\<rparr>))"
  using assms by (auto simp: extract_nasa_data_def Let_def)

theorem extract_collection_witness:
  "raw_file (snd (extract_nasa_data demo_env demo_api Default 8
       \<lparr>raw_file = None, gets_sent = 0\<rparr>)) = Some (JArr [JObj apod_image, JObj apod_video]) \<and>
   raw_file (snd (extract_nasa_data demo_env single_api Default 8
       \<lparr>raw_file = None, gets_sent = 0\<rparr>)) = Some (JArr [JObj apod_image])"
proof -
  have k: "key_in_effect demo_env Default = Some ''DEMO_KEY''"
    by (simp add: key_in_effect_def nasa_key_def demo_env_def key_missing_def)
  have n: "''DEMO_KEY'' \<noteq> []" by simp
  have s: "\<not> (400 \<le> (200::nat) \<and> (200::nat) < 600)" by simp
  have a: "demo_api ''DEMO_KEY'' 8 = Reply 200 (Some (JArr [JObj apod_image, JObj apod_video]))"
    by (simp add: demo_api_def)
  have b: "single_api ''DEMO_KEY'' 8 = Reply 200 (Some (JObj apod_image))"
    by (simp add: single_api_def)
  show ?thesis
    using extract_collection [where remote = demo_api and days_back = 8,
        OF k n a s, of "[JObj apod_image, JObj apod_video]"]
      extract_collection [where remote = single_api and days_back = 8,
        OF k n b s, of _ _ apod_image]
    by simp
qed

text \<open>
  C9, as the specification has it: the fetcher fails for want of a key exactly when no
  source supplies one. It does not hold: an explicit argument takes the place of the
  default, so an empty one fails the call although the environment has a key.
\<close>

theorem empty_argument_hides_env_key:
  "fst (extract_nasa_data demo_env demo_api (Given (Some [])) 8
         \<lparr>raw_file = None, gets_sent = 0\<rparr>) = Inl ValueError \<and>
   \<not> no_credential_available demo_env (Given (Some []))"
  by (simp add: extract_nasa_data_def key_in_effect_def no_credential_available_def
      key_missing_def demo_env_def)

text \<open>
  C9, amended. The fetcher fails with the \<open>ValueError\<close> of the missing key exactly when
  the key in effect is \<open>None\<close> or empty, the key in effect being the explicit argument
  when one is passed and otherwise the first non-empty of the variables \<open>api_key\<close> and
  \<open>NASA_API_KEY\<close>; it then has sent no request and written nothing.
\<close>

theorem missing_key_fails:
  "(fst (extract_nasa_data env remote arg days_back w) = Inl ValueError) =
     key_missing (key_in_effect env arg) \<and>
   (key_missing (key_in_effect env arg) \<longrightarrow>
     extract_nasa_data env remote arg days_back w = (Inl ValueError, w))"
  by (auto simp: extract_nasa_data_def Let_def key_missing_def
      split: option.splits http_result.splits json.splits)

theorem missing_key_fails_witness:
  "key_missing (key_in_effect Map.empty Default) \<and>
   extract_nasa_data Map.empty demo_api Default 8 \<lparr>raw_file = None, gets_sent = 0\<rparr> =
     (Inl ValueError, \<lparr>raw_file = None, gets_sent = 0\<rparr>) \<and>
   fst (extract_nasa_data demo_env demo_api Default 8 \<lparr>raw_file = None, gets_sent = 0\<rparr>)
     \<noteq> Inl ValueError"
proof -
  have m: "key_missing (key_in_effect Map.empty Default)"
    by (simp add: key_in_effect_def nasa_key_def key_missing_def)
  have p: "\<not> key_missing (key_in_effect demo_env Default)"
    by (simp add: key_in_effect_def nasa_key_def key_missing_def demo_env_def)
  show ?thesis
    using m p
      missing_key_fails [of Map.empty demo_api Default 8 "\<lparr>raw_file = None, gets_sent = 0\<rparr>"]
      missing_key_fails [of demo_env demo_api Default 8 "\<lparr>raw_file = None, gets_sent = 0\<rparr>"]
    by simp
qed


section \<open>The transformer\<close>

lemma project_all_records: "project_all (map JObj recs) = Inr (map project_record recs)"
  by (induction recs) auto

text \<open>
  C4. For a raw artifact that holds a list of \<open>k\<close> records, or one record alone, the
  transformer writes the table with one data row per record, in the order of the input:
  row \<open>i\<close> is the projection of record \<open>i\<close>, whatever the dates of the others, so nothing
  is filtered out and nothing is merged. The header names the five columns (a frame of no
  record at all has no column to name, and its header line is empty).
\<close>

theorem transform_one_row_per_record:
  assumes "raw_json w = Some data"
    and "data = JArr (map JObj recs) \<or> (data = JObj rec \<and> recs = [rec])"
  shows "\<exists>df. transform_nasa_data w =
                (Inr df, w\<lparr>staged_dir := True, staged_csv := Some df\<rparr>) \<and>
              data_rows df = map project_record recs \<and>
              length (data_rows df) = length recs \<and>
              header df =
                (if recs = [] then []
                 else [''date'', ''title'', ''explanation'', ''media_type'', ''image_url''])"
  using assms
  by (auto simp: transform_nasa_data_def Let_def project_all_records to_frame_def)

theorem transform_one_row_per_record_witness:
  "\<exists>df. staged_csv (snd (transform_nasa_data
            \<lparr>raw_json = Some (JArr [JObj apod_image, JObj apod_video]),
             staged_dir = False, staged_csv = None\<rparr>)) = Some df \<and>
        data_rows df = [project_record apod_image, project_record apod_video] \<and>
        header df = [''date'', ''title'', ''explanation'', ''media_type'', ''image_url'']"
proof -
  have a: "raw_json \<lparr>raw_json = Some (JArr [JObj apod_image, JObj apod_video]),
             staged_dir = False, staged_csv = None\<rparr> =
           Some (JArr [JObj apod_image, JObj apod_video])"
    by simp
  have b: "JArr [JObj apod_image, JObj apod_video] = JArr (map JObj [apod_image, apod_video]) \<or>
           (JArr [JObj apod_image, JObj apod_video] = JObj apod_image \<and>
            [apod_image, apod_video] = [apod_image])"
    by simp
  from transform_one_row_per_record [OF a b] show ?thesis
    by auto
qed

text \<open>
  C5, as the specification has it: \<open>image_url\<close> is the field \<open>url\<close> whenever the record
  has one. It does not hold for a \<open>url\<close> that is there and empty: \<open>or\<close> passes over
  it, and the thumbnail is taken.
\<close>

theorem image_url_empty_url:
  "map_of [(''url'', JStr []), (''thumbnail_url'', JStr ''https://apod/t.png'')] ''url'' =
     Some (JStr []) \<and>
   r_image_url (project_record
       [(''url'', JStr []), (''thumbnail_url'', JStr ''https://apod/t.png'')]) \<noteq> JStr []"
  by (simp add: project_record_def py_or_def dict_get_def)

text \<open>
  C5, amended. \<open>image_url\<close> is the field \<open>url\<close> when the record has one that counts as
  true (a non-empty string); otherwise it is the field \<open>thumbnail_url\<close> when the record
  has one; and it is \<open>None\<close>, an empty field of the CSV, when the record has neither a
  true \<open>url\<close> nor a \<open>thumbnail_url\<close>.
\<close>

theorem image_url_fallback:
  "(\<forall>u. map_of rec ''url'' = Some u \<and> truthy u \<longrightarrow>
        r_image_url (project_record rec) = u) \<and>
   (\<forall>t. (map_of rec ''url'' = None \<or> (\<exists>u. map_of rec ''url'' = Some u \<and> \<not> truthy u)) \<and>
        map_of rec ''thumbnail_url'' = Some t \<longrightarrow>
        r_image_url (project_record rec) = t) \<and>
   ((map_of rec ''url'' = None \<or> (\<exists>u. map_of rec ''url'' = Some u \<and> \<not> truthy u)) \<and>
        map_of rec ''thumbnail_url'' = None \<longrightarrow>
        r_image_url (project_record rec) = JNull)"
  by (auto simp: project_record_def py_or_def dict_get_def split: option.splits)

theorem image_url_fallback_witness:
  "r_image_url (project_record apod_image) = JStr ''https://apod/orion.jpg'' \<and>
   r_image_url (project_record apod_video) = JStr ''https://apod/eclipse.png'' \<and>
   r_image_url (project_record [(''date'', JStr ''2024-01-02'')]) = JNull"
proof -
  have a: "map_of apod_image ''url'' = Some (JStr ''https://apod/orion.jpg'') \<and>
           truthy (JStr ''https://apod/orion.jpg'')"
    by (simp add: apod_image_def)
  have b: "map_of apod_video ''url'' = None \<and>
           map_of apod_video ''thumbnail_url'' = Some (JStr ''https://apod/eclipse.png'')"
    by (simp add: apod_video_def)
  have c: "map_of [(''date'', JStr ''2024-01-02'')] ''url'' = None \<and>
           map_of [(''date'', JStr ''2024-01-02'')] ''thumbnail_url'' = None"
    by simp
  show ?thesis
    using a b c image_url_fallback [of apod_image] image_url_fallback [of apod_video]
      image_url_fallback [of "[(''date'', JStr ''2024-01-02'')]"]
    by blast
qed


section \<open>The loader: batches and rows\<close>

lemma range_from_map:
  "range_from i n = map (\<lambda>k. i + batch_size * k) [0..<(n - i + (batch_size - 1)) div batch_size]"
proof (induction i n rule: range_from.induct)
  case (1 i n)
  show ?case
  proof (cases "i < n")
    case True
    have d: "(n - i + (batch_size - 1)) div batch_size =
        Suc ((n - (i + batch_size) + (batch_size - 1)) div batch_size)"
    proof (cases "i + 20 \<le> n")
      case True
      then have "n - i + 19 = (n - (i + 20) + 19) + 20" by simp
      then have "(n - i + 19) div 20 = Suc ((n - (i + 20) + 19) div 20)"
        by (simp only: div_add_self2)
      then show ?thesis by (simp add: batch_size_def)
    next
      case False
      with \<open>i < n\<close> have "20 * 1 \<le> n - i + 19" "n - i + 19 < 20 * Suc 1" by simp_all
      then have "(n - i + 19) div 20 = 1" by (rule div_nat_eqI)
      with False show ?thesis by (simp add: batch_size_def)
    qed
    have "range_from i n = i # range_from (i + batch_size) n"
      using True by (subst range_from.simps) simp
    also have "\<dots> = i # map (\<lambda>k. i + batch_size + batch_size * k)
        [0..<(n - (i + batch_size) + (batch_size - 1)) div batch_size]"
      using 1 [OF True] by simp
    also have "\<dots> = map (\<lambda>k. i + batch_size * k) [0..<(n - i + (batch_size - 1)) div batch_size]"
      unfolding d map_upt_Suc by (simp add: add.assoc)
    finally show ?thesis .
  next
    case False
    then show ?thesis by (subst range_from.simps) (simp add: batch_size_def)
  qed
qed

lemma range_from_0: "range_from 0 n = map (\<lambda>k. 20 * k) [0..<(n + 19) div 20]"
  by (simp add: range_from_map batch_size_def)




lemma batch_at_nth:
  assumes "j < length (rows df)"
  shows "j mod 20 < length (batch_at df (20 * (j div 20)))"
    and "batch_at df (20 * (j div 20)) ! (j mod 20) = record_at df j"
proof -
  have l: "length (batch_at df (20 * (j div 20))) = min 20 (length (rows df) - 20 * (j div 20))"
    by (simp add: batch_at_def iloc_def batch_size_def min_def)
  have j: "20 * (j div 20) + j mod 20 = j" by simp
  have m: "j mod 20 < 20" by simp
  from assms j have "j mod 20 < length (rows df) - 20 * (j div 20)" by linarith
  with m l show a: "j mod 20 < length (batch_at df (20 * (j div 20)))" by simp
  then have b: "j mod 20 < length (iloc (rows df) (20 * (j div 20)) (20 * (j div 20) + batch_size))"
    by (simp add: batch_at_def)
  have "iloc (rows df) (20 * (j div 20)) (20 * (j div 20) + batch_size) ! (j mod 20) = rows df ! j"
    using assms m by (simp add: iloc_def batch_size_def)
  with b show "batch_at df (20 * (j div 20)) ! (j mod 20) = record_at df j"
    by (simp add: batch_at_def record_at_def)
qed

lemma set_batch_at: "set (batch_at df i) \<subseteq> to_record (columns df) ` set (rows df)"
proof -
  have "set (iloc (rows df) i (i + batch_size)) \<subseteq> set (rows df)"
    unfolding iloc_def by (meson set_take_subset set_drop_subset subset_trans)
  then show ?thesis by (auto simp: batch_at_def)
qed

lemma normalize_dates_Inr:
  assumes "normalize_dates fmt df0 = Inr df"
  shows "columns df = columns df0" and "length (rows df) = length (rows df0)" and "''date'' \<in> set (columns df0)"
    and "j < length (rows df0) \<Longrightarrow> k \<noteq> ''date'' \<Longrightarrow> (rows df ! j) k = (rows df0 ! j) k"
proof -
  from assms have c: "''date'' \<in> set (columns df0)"
    by (cases "''date'' \<in> set (columns df0)") (simp_all add: normalize_dates_def)
  from assms c obtain ds where f: "fmt (map (\<lambda>r. cell_at r ''date'') (rows df0)) = Some ds"
    by (cases "fmt (map (\<lambda>r. cell_at r ''date'') (rows df0))") (simp_all add: normalize_dates_def)
  from assms c f have l: "length ds = length (rows df0)"
    by (cases "length ds = length (rows df0)") (simp_all add: normalize_dates_def)
  from assms c f l have e: "df = df0\<lparr>rows := map2 (\<lambda>r d. r(''date'' \<mapsto> d)) (rows df0) ds\<rparr>"
    by (simp add: normalize_dates_def)
  note d = c l e
  from d show "columns df = columns df0" by simp
  from d show "length (rows df) = length (rows df0)" by simp
  from d show "''date'' \<in> set (columns df0)" by simp
  assume "j < length (rows df0)" "k \<noteq> ''date''"
  with d show "(rows df ! j) k = (rows df0 ! j) k" by simp
qed

text \<open>What building the values of a batch raises, and when.\<close>

lemma replace_quotes_error: "replace_quotes c = Inl e \<Longrightarrow> e = AttributeError"
  by (cases c) auto

lemma replace_quotes_null: "\<not> notnull c \<Longrightarrow> replace_quotes (none_if_null c) = Inl AttributeError"
  by (simp add: none_if_null_def)

lemma replace_quotes_Inr:
  "replace_quotes c = Inr s \<Longrightarrow> \<exists>t. c = CStr t \<and> s = double_quotes t"
  by (cases c) auto


lemma row_values_error: "row_values r = Inl e \<Longrightarrow> e = KeyError \<or> e = AttributeError"
  by (auto simp: row_values_def split: option.splits sum.splits dest: replace_quotes_error)

lemma row_values_null:
  assumes "''date'' \<in> set cols" "''title'' \<in> set cols" "''explanation'' \<in> set cols"
    and "\<not> notnull (cell_at r ''title'') \<or> \<not> notnull (cell_at r ''explanation'')"
  shows "row_values (to_record cols r) = Inl AttributeError"
proof (cases "replace_quotes (none_if_null (cell_at r ''title''))")
  case (Inl e)
  then have "e = AttributeError" by (rule replace_quotes_error)
  with Inl assms(1,2) show ?thesis by (simp add: row_values_def to_record_def)
next
  case (Inr tv)
  with assms(4) have "\<not> notnull (cell_at r ''explanation'')"
    by (auto simp: replace_quotes_null)
  then have "replace_quotes (none_if_null (cell_at r ''explanation'')) = Inl AttributeError"
    by (rule replace_quotes_null)
  with Inr assms(1-3) show ?thesis by (simp add: row_values_def to_record_def)
qed


text \<open>
  Doubling leaves the other characters as they are and writes every quote twice; a row
  that yields its values has string title, explanation and image URL, which are doubled,
  while the date and the media type are written as \<open>str()\<close> gives them.
\<close>

lemma double_quotes_count:
  "count_list (double_quotes s) quote = 2 * count_list s quote \<and>
   filter (\<lambda>c. c \<noteq> quote) (double_quotes s) = filter (\<lambda>c. c \<noteq> quote) s"
  by (induction s) (simp_all add: double_quotes_def)

lemma row_values_fields:
  assumes "row_values r = Inr v"
  shows "\<exists>d t x m. r ''date'' = Some d \<and> r ''title'' = Some (CStr t) \<and>
           r ''explanation'' = Some (CStr x) \<and> r ''media_type'' = Some m \<and>
           date_val v = py_str d \<and> title_val v = double_quotes t \<and>
           explanation_val v = double_quotes x \<and> media_type_val v = py_str m"
  using assms
  by (auto simp: row_values_def split: option.splits sum.splits dest!: replace_quotes_Inr)

lemma build_values_error: "build_values rs = Inl e \<Longrightarrow> e = KeyError \<or> e = AttributeError"
  by (induction rs) (auto split: sum.splits dest: row_values_error)

lemma build_values_fails:
  "r \<in> set rs \<Longrightarrow> row_values r = Inl e \<Longrightarrow> \<exists>e'. build_values rs = Inl e'"
  by (induction rs) (auto split: sum.splits)

lemma build_values_first_error:
  "\<forall>x\<in>set xs. \<exists>v. row_values x = Inr v \<Longrightarrow> row_values r = Inl e \<Longrightarrow>
   build_values (xs @ r # ys) = Inl e"
  by (induction xs) (auto split: sum.splits)

lemma build_values_all:
  "\<forall>r\<in>set rs. \<exists>v. row_values r = Inr v \<Longrightarrow> \<exists>vs. build_values rs = Inr vs"
  by (induction rs) (auto split: sum.splits)


lemma batch_statement_error: "batch_statement df i = Inl e \<Longrightarrow> e = KeyError \<or> e = AttributeError"
  by (auto simp: batch_statement_def split: sum.splits dest: build_values_error)

lemma batch_statement_all:
  assumes "\<forall>r\<in>set (rows df). \<exists>v. row_values (to_record (columns df) r) = Inr v"
  shows "\<exists>q. batch_statement df i = Inr q"
proof -
  from assms set_batch_at[of df i] have "\<forall>r\<in>set (batch_at df i). \<exists>v. row_values r = Inr v" by auto
  from build_values_all[OF this] show ?thesis by (auto simp: batch_statement_def)
qed


section \<open>The loader: the loop\<close>

lemma posted_grows: "load_loop ep df is w = (res, w') \<Longrightarrow> \<exists>qs. posted w' = posted w @ qs \<and> length qs \<le> length is"
proof (induction "is" arbitrary: w)
  case Nil then show ?case by simp
next
  case (Cons i "is")
  show ?case
  proof (cases "batch_statement df i")
    case (Inl e) with Cons.prems show ?thesis by simp
  next
    case (Inr sql)
    show ?thesis
    proof (cases "ep (length (posted w)) sql")
      case PostFailed with Inr Cons.prems show ?thesis by (auto simp: Let_def)
    next
      case (Answered b)
      show ?thesis
      proof (cases b)
        case False with Inr Answered Cons.prems show ?thesis by (auto simp: Let_def)
      next
        case True
        with Inr Answered Cons.prems
        have "load_loop ep df is (w\<lparr>posted := posted w @ [sql], store := upsert_batch (batch_at df i) (store w)\<rparr>) = (res, w')"
          by (simp add: Let_def)
        from Cons.IH[OF this] show ?thesis by auto
      qed
    qed
  qed
qed

lemma load_loop_append:
  "load_loop ep df (pre @ rest) w =
     (case load_loop ep df pre w of (Inl e, w1) \<Rightarrow> (Inl e, w1) | (Inr u, w1) \<Rightarrow> load_loop ep df rest w1)"
  by (induction pre arbitrary: w) (auto simp: Let_def split: sum.splits post_result.splits)

lemma load_loop_success:
  "load_loop ep df is w = (Inr (), w') \<Longrightarrow>
     map (batch_statement df) is = map Inr (drop (length (posted w)) (posted w')) \<and>
     take (length (posted w)) (posted w') = posted w \<and>
     (\<forall>k < length is. ep (length (posted w) + k) (posted w' ! (length (posted w) + k)) = Answered True) \<and>
     store w' = fold (\<lambda>i. upsert_batch (batch_at df i)) is (store w) \<and>
     staged_file w' = staged_file w"
proof (induction "is" arbitrary: w)
  case Nil then show ?case by auto
next
  case (Cons i "is")
  from Cons.prems obtain sql where s: "batch_statement df i = Inr sql"
    by (cases "batch_statement df i") auto
  from Cons.prems s have a: "ep (length (posted w)) sql = Answered True"
    by (auto simp: Let_def split: post_result.splits if_splits)
  let ?w2 = "w\<lparr>posted := posted w @ [sql], store := upsert_batch (batch_at df i) (store w)\<rparr>"
  from Cons.prems s a have r: "load_loop ep df is ?w2 = (Inr (), w')" by (simp add: Let_def)
  note ih = Cons.IH[OF r]
  from posted_grows[OF r] obtain qs where qs: "posted w' = posted w @ sql # qs" by auto
  show ?case using ih s a qs 
    by (auto simp: nth_append less_Suc_eq_0_disj)
qed

lemma load_loop_rejected:
  "load_loop ep df is w = (res, w') \<Longrightarrow> length (posted w) \<le> c \<Longrightarrow> c < length (posted w') \<Longrightarrow>
   ep c (posted w' ! c) = Answered False \<Longrightarrow>
   res = Inl RuntimeError \<and> length (posted w') = c + 1 \<and> c - length (posted w) < length is \<and>
   store w' = fold (\<lambda>i. upsert_batch (batch_at df i)) (take (c - length (posted w)) is) (store w) \<and>
   map Inr (drop (length (posted w)) (posted w')) =
     map (batch_statement df) (take (c - length (posted w) + 1) is)"
proof (induction "is" arbitrary: w)
  case Nil then show ?case by simp
next
  case (Cons i "is")
  from Cons.prems obtain sql where s: "batch_statement df i = Inr sql"
    by (cases "batch_statement df i") auto
  let ?w1 = "w\<lparr>posted := posted w @ [sql]\<rparr>"
  let ?w2 = "?w1\<lparr>store := upsert_batch (batch_at df i) (store ?w1)\<rparr>"
  from posted_grows[OF Cons.prems(1)] obtain qs where qs: "posted w' = posted w @ qs" by auto
  show ?case
  proof (cases "ep (length (posted w)) sql")
    case PostFailed
    with s Cons.prems(1) have w': "res = Inl RequestException" "w' = ?w1" by (auto simp: Let_def)
    with Cons.prems(2,3) have "c = length (posted w)" by simp
    with w' Cons.prems(4) PostFailed show ?thesis by simp
  next
    case (Answered b)
    show ?thesis
    proof (cases b)
      case False
      with s Answered Cons.prems(1) have w': "res = Inl RuntimeError" "w' = ?w1" by (auto simp: Let_def)
      with Cons.prems(2,3) have "c = length (posted w)" by simp
      with w' s show ?thesis by simp
    next
      case True
      with s Answered Cons.prems(1) have r: "load_loop ep df is ?w2 = (res, w')" by (simp add: Let_def)
      from posted_grows[OF r] obtain qs where qs: "posted w' = posted w @ sql # qs" by auto
      have "c \<noteq> length (posted w)"
      proof
        assume "c = length (posted w)"
        with qs Cons.prems(4) Answered True show False by simp
      qed
      with Cons.prems(2) have c: "length (posted ?w2) \<le> c" by simp
      then obtain k where k: "c = length (posted w) + Suc k"
        by (auto simp: le_iff_add)
      have e: "c - length (posted ?w2) = k" "c - length (posted w) = Suc k"
        using k by simp_all
      note ih = Cons.IH[OF r c Cons.prems(3,4), unfolded e]
      have d: "drop (length (posted w)) (posted w') = sql # drop (length (posted ?w2)) (posted w')"
        using qs by simp
      show ?thesis
        unfolding e d using ih s by simp
    qed
  qed
qed

lemma load_loop_RuntimeError:
  "load_loop ep df is w = (Inl RuntimeError, w') \<Longrightarrow>
   length (posted w) < length (posted w') \<and>
   ep (length (posted w') - 1) (posted w' ! (length (posted w') - 1)) = Answered False"
proof (induction "is" arbitrary: w)
  case Nil then show ?case by simp
next
  case (Cons i "is")
  show ?case
  proof (cases "batch_statement df i")
    case (Inl e)
    with Cons.prems show ?thesis by (auto dest: batch_statement_error)
  next
    case (Inr sql)
    let ?w2 = "w\<lparr>posted := posted w @ [sql], store := upsert_batch (batch_at df i) (store w)\<rparr>"
    show ?thesis
    proof (cases "ep (length (posted w)) sql")
      case PostFailed with Inr Cons.prems show ?thesis by (simp add: Let_def)
    next
      case (Answered b)
      show ?thesis
      proof (cases b)
        case False with Inr Answered Cons.prems show ?thesis by (auto simp: Let_def)
      next
        case True
        with Inr Answered Cons.prems have r: "load_loop ep df is ?w2 = (Inl RuntimeError, w')"
          by (simp add: Let_def)
        from Cons.IH[OF r] show ?thesis by simp
      qed
    qed
  qed
qed

lemma load_loop_accepted:
  "\<forall>i\<in>set is. \<exists>q. batch_statement df i = Inr q \<Longrightarrow>
   \<forall>k<length is. \<forall>q. ep (length (posted w) + k) q = Answered True \<Longrightarrow>
   fst (load_loop ep df is w) = Inr ()"
proof (induction "is" arbitrary: w)
  case Nil then show ?case by simp
next
  case (Cons i "is")
  from Cons.prems(1) obtain sql where s: "batch_statement df i = Inr sql" by auto
  from Cons.prems(2) have a: "ep (length (posted w)) sql = Answered True" by force
  let ?w2 = "w\<lparr>posted := posted w @ [sql], store := upsert_batch (batch_at df i) (store w)\<rparr>"
  have "\<forall>k<length is. \<forall>q. ep (length (posted ?w2) + k) q = Answered True"
    using Cons.prems(2) by force
  with Cons.IH[of ?w2] Cons.prems(1) have "fst (load_loop ep df is ?w2) = Inr ()" by simp
  with s a show ?case by (simp add: Let_def)
qed

lemma load_unfold:
  assumes "staged_file w = Some df0" and "normalize_dates fmt df0 = Inr df"
  shows "load_to_supabase fmt ep w = load_loop ep df (range_from 0 (length (rows df))) w"
  using assms by (simp add: load_to_supabase_def)



text \<open>The example rows.\<close>

lemma normalize_midnight:
  "normalize_dates midnight (staged_frame rs) = Inr (staged_frame (map at_midnight rs))"
  by (simp add: normalize_dates_def midnight_def staged_frame_def staged_cols_def at_midnight_def
      zip_map2 zip_same_conv_map comp_def)

lemma row_values_orion:
  "row_values (to_record staged_cols (at_midnight row_orion)) =
     Inr \<lparr> date_val = ''2024-01-01 00:00:00'', title_val = ''Orion'',
           explanation_val = ''A nebula'', media_type_val = ''image'',
           image_url_val = ''https://apod/orion.jpg'' \<rparr>"
  by (simp add: row_values_def to_record_def staged_cols_def row_orion_def at_midnight_def
      cell_at_def none_if_null_def notnull_def double_quotes_def quote_def)








section \<open>The store: what it makes of the loader's statements\<close>




lemma double_quotes_Nil [simp]: "double_quotes [] = []"
  by (simp add: double_quotes_def)
































section \<open>The loader: the claims\<close>






text \<open>
  C3 asks that every string interpolated into the statement have its single quotes
  doubled. The loop body doubles them in \<open>title\<close>, \<open>explanation\<close> and \<open>image_url\<close>
  and leaves \<open>media_type\<close> as it is (and \<open>date\<close>, which the normalization has
  rewritten). On a row whose title and media type each hold a quote, the row's values,
  and the statement posted for the row, have the quote of the title doubled and the
  quote of the media type single.
\<close>

theorem media_type_not_escaped:
  "row_values (to_record staged_cols row_quoted) =
     Inr \<lparr> date_val = ''2024-01-03 00:00:00'',
           title_val = ''Orion'' @ [quote, quote] @ ''s Belt'',
           explanation_val = ''Three stars'',
           media_type_val = ''im'' @ [quote] @ ''age'',
           image_url_val = ''https://apod/belt.jpg'' \<rparr> \<and>
   batch_statement (staged_frame [row_quoted]) 0 =
     Inr (insert_sql [format_values
       \<lparr> date_val = ''2024-01-03 00:00:00'',
         title_val = ''Orion'' @ [quote, quote] @ ''s Belt'',
         explanation_val = ''Three stars'',
         media_type_val = ''im'' @ [quote] @ ''age'',
         image_url_val = ''https://apod/belt.jpg'' \<rparr>])"
proof -
  have v: "row_values (to_record staged_cols row_quoted) =
     Inr \<lparr> date_val = ''2024-01-03 00:00:00'',
           title_val = ''Orion'' @ [quote, quote] @ ''s Belt'',
           explanation_val = ''Three stars'',
           media_type_val = ''im'' @ [quote] @ ''age'',
           image_url_val = ''https://apod/belt.jpg'' \<rparr>"
    by (simp add: row_values_def to_record_def staged_cols_def row_quoted_def cell_at_def
        none_if_null_def notnull_def double_quotes_def quote_def)
  have "batch_at (staged_frame [row_quoted]) 0 = [to_record staged_cols row_quoted]"
    by (simp add: batch_at_def iloc_def batch_size_def staged_frame_def)
  with v show ?thesis by (simp add: batch_statement_def)
qed

text \<open>
  C6. When a call of the run is answered with a response that is not \<open>ok\<close>, the run
  ends with the \<open>RuntimeError\<close> of the rejected batch (the specification's
  \<open>LoadError\<close>); the rejected call is the last one posted, so there is no retry and no
  later batch; the statements posted are those of the batches up to the rejected one,
  once each; and the table holds the upserts of all the batches before it, none undone.
\<close>

theorem rejected_batch_stops_load:
  assumes "load_to_supabase fmt ep w = (res, w')" and "length (posted w) \<le> c"
    and "c < length (posted w')" and "ep c (posted w' ! c) = Answered False"
  shows "res = Inl RuntimeError \<and> length (posted w') = c + 1 \<and>
    (\<exists>df0 df. staged_file w = Some df0 \<and> normalize_dates fmt df0 = Inr df \<and>
       c - length (posted w) < length (range_from 0 (length (rows df))) \<and>
       store w' = fold (\<lambda>i. upsert_batch (batch_at df i))
                    (take (c - length (posted w)) (range_from 0 (length (rows df)))) (store w) \<and>
       map Inr (drop (length (posted w)) (posted w')) =
         map (batch_statement df) (take (c - length (posted w) + 1) (range_from 0 (length (rows df)))))"
proof -
  from assms(1,2,3) obtain df0 where f: "staged_file w = Some df0"
    by (cases "staged_file w") (auto simp: load_to_supabase_def)
  from assms(1,2,3) f obtain df where d: "normalize_dates fmt df0 = Inr df"
    by (cases "normalize_dates fmt df0") (auto simp: load_to_supabase_def)
  from assms(1) have r: "load_loop ep df (range_from 0 (length (rows df))) w = (res, w')"
    unfolding load_unfold[OF f d] .
  from load_loop_rejected[OF r assms(2,3,4)] f d show ?thesis by blast
qed

theorem rejected_batch_stops_load_witness:
  "fst (load_to_supabase midnight (reject_call 1) (fresh_world (replicate 21 row_orion))) = Inl RuntimeError \<and>
   length (posted (snd (load_to_supabase midnight (reject_call 1) (fresh_world (replicate 21 row_orion))))) = 2 \<and>
   store (snd (load_to_supabase midnight (reject_call 1) (fresh_world (replicate 21 row_orion)))) =
     upsert_batch (batch_at (staged_frame (replicate 21 (at_midnight row_orion))) 0) Map.empty"
proof -
  let ?raw = "staged_frame (replicate 21 row_orion)"
  let ?nrm = "staged_frame (replicate 21 (at_midnight row_orion))"
  let ?w = "fresh_world (replicate 21 row_orion)"
  let ?run = "load_to_supabase midnight (reject_call 1) ?w"
  have f: "staged_file ?w = Some ?raw" by (simp add: fresh_world_def)
  have d: "normalize_dates midnight ?raw = Inr ?nrm" by (simp add: normalize_midnight)
  have ok: "\<forall>r\<in>set (rows ?nrm). \<exists>v. row_values (to_record (columns ?nrm) r) = Inr v"
    by (simp add: staged_frame_def row_values_orion)
  from batch_statement_all[OF ok] obtain q0 q1
    where q: "batch_statement ?nrm 0 = Inr q0" "batch_statement ?nrm 20 = Inr q1"
    by metis
  have n: "length (rows ?nrm) = 21" by (simp add: staged_frame_def)
  have r: "range_from 0 21 = [0, 20]" by (simp add: range_from_0 upt_rec)
  have p: "posted ?w = []" "store ?w = Map.empty" by (simp_all add: fresh_world_def)
  have run: "?run = (Inl RuntimeError,
      ?w\<lparr>posted := [q0, q1], store := upsert_batch (batch_at ?nrm 0) Map.empty\<rparr>)"
    unfolding load_unfold[OF f d] n r
    by (simp add: q p reject_call_def Let_def)
  have e: "?run = (fst ?run, snd ?run)" by simp
  have c: "length (posted ?w) \<le> 1" "1 < length (posted (snd ?run))"
    "reject_call 1 1 (posted (snd ?run) ! 1) = Answered False"
    unfolding run by (simp_all add: p reject_call_def)
  from rejected_batch_stops_load[OF e c] f d p n r show ?thesis by (auto simp: upsert_batch_def)
qed

text \<open>
  C7. With no raw artifact the transformer fails with \<open>FileNotFoundError\<close> (the
  specification's \<open>MissingInputError\<close>) and writes no staged artifact: all it has done is
  make sure of the directory \<open>data/staged\<close>. With no staged artifact the loader fails with
  \<open>FileNotFoundError\<close> and leaves its world as it was: nothing posted, nothing stored.
\<close>

theorem missing_input_fails_first:
  "(raw_json tw = None \<longrightarrow>
      transform_nasa_data tw = (Inl FileNotFoundError, tw\<lparr>staged_dir := True\<rparr>)) \<and>
   (staged_file lw = None \<longrightarrow> load_to_supabase fmt ep lw = (Inl FileNotFoundError, lw))"
  by (simp add: transform_nasa_data_def load_to_supabase_def)

theorem missing_input_fails_first_witness:
  "transform_nasa_data \<lparr>raw_json = None, staged_dir = False, staged_csv = None\<rparr> =
     (Inl FileNotFoundError, \<lparr>raw_json = None, staged_dir = True, staged_csv = None\<rparr>) \<and>
   load_to_supabase midnight accept_all \<lparr>staged_file = None, store = Map.empty, posted = []\<rparr> =
     (Inl FileNotFoundError, \<lparr>staged_file = None, store = Map.empty, posted = []\<rparr>)"
  using missing_input_fails_first [of "\<lparr>raw_json = None, staged_dir = False, staged_csv = None\<rparr>"
      "\<lparr>staged_file = None, store = Map.empty, posted = []\<rparr>" midnight accept_all]
  by simp

text \<open>
  C10, as the specification has it: a row with a null title makes the load fail with an
  error that is no \<open>LoadError\<close>. It does not hold when an earlier batch is rejected
  first: with twenty good rows before the null one and an endpoint that rejects the
  first call, the load ends with the \<open>RuntimeError\<close> of that batch.
\<close>

theorem rejected_first_batch_hides_null_title:
  "\<not> notnull (cell_at ((replicate 20 row_orion @ [row_untitled]) ! 20) ''title'') \<and>
   fst (load_to_supabase midnight (reject_call 0)
         (fresh_world (replicate 20 row_orion @ [row_untitled]))) = Inl RuntimeError"
proof -
  let ?raw = "staged_frame (replicate 20 row_orion @ [row_untitled])"
  let ?nrm = "staged_frame (replicate 20 (at_midnight row_orion) @ [at_midnight row_untitled])"
  let ?w = "fresh_world (replicate 20 row_orion @ [row_untitled])"
  have f: "staged_file ?w = Some ?raw" by (simp add: fresh_world_def)
  have d: "normalize_dates midnight ?raw = Inr ?nrm" by (simp add: normalize_midnight)
  have b: "batch_at ?nrm 0 = replicate 20 (to_record staged_cols (at_midnight row_orion))"
    by (simp add: batch_at_def iloc_def batch_size_def staged_frame_def)
  have "\<forall>r\<in>set (batch_at ?nrm 0). \<exists>v. row_values r = Inr v"
    unfolding b by (simp add: row_values_orion)
  from build_values_all[OF this] obtain q where q: "batch_statement ?nrm 0 = Inr q"
    by (auto simp: batch_statement_def)
  have n: "length (rows ?nrm) = 21" by (simp add: staged_frame_def)
  have r: "range_from 0 21 = [0, 20]" by (simp add: range_from_0 upt_rec)
  have p: "posted ?w = []" by (simp add: fresh_world_def)
  have "fst (load_to_supabase midnight (reject_call 0) ?w) = Inl RuntimeError"
    unfolding load_unfold[OF f d] n r by (simp add: q p reject_call_def Let_def)
  moreover have "\<not> notnull (cell_at ((replicate 20 row_orion @ [row_untitled]) ! 20) ''title'')"
    by (simp add: nth_append row_untitled_def cell_at_def notnull_def)
  ultimately show ?thesis by simp
qed

text \<open>
  C10, amended. When row \<open>j\<close> of the staged frame has a title or an explanation that is
  missing or null, the run fails, and it never posts the statement of that row's batch,
  number \<open>j div 20\<close>, nor any later one. The failure is no \<open>RuntimeError\<close> (the
  specification's \<open>LoadError\<close>) as long as none of the calls for the batches before was
  rejected; and when the run gets as far as that row (the dates convert, the rows before
  yield their values, the calls before are accepted) it is the \<open>AttributeError\<close> of
  \<open>None.replace\<close>, raised with exactly the \<open>j div 20\<close> earlier statements posted.
\<close>

theorem null_title_fails_before_post:
  assumes "staged_file w = Some df0" and "j < length (rows df0)"
    and "''title'' \<in> set (columns df0)" and "''explanation'' \<in> set (columns df0)"
    and "\<not> notnull (cell_at (rows df0 ! j) ''title'') \<or> \<not> notnull (cell_at (rows df0 ! j) ''explanation'')"
  shows "(\<exists>e. fst (load_to_supabase fmt ep w) = Inl e) \<and>
    length (posted (snd (load_to_supabase fmt ep w))) \<le> length (posted w) + j div 20 \<and>
    ((\<forall>k<j div 20. \<forall>q. ep (length (posted w) + k) q \<noteq> Answered False) \<longrightarrow>
       fst (load_to_supabase fmt ep w) \<noteq> Inl RuntimeError) \<and>
    (\<forall>df. normalize_dates fmt df0 = Inr df \<and> (\<forall>i<j. \<exists>v. row_values (record_at df i) = Inr v) \<and>
       (\<forall>k<j div 20. \<forall>q. ep (length (posted w) + k) q = Answered True) \<longrightarrow>
       fst (load_to_supabase fmt ep w) = Inl AttributeError \<and>
       length (posted (snd (load_to_supabase fmt ep w))) = length (posted w) + j div 20)"
proof -
  define res where "res = fst (load_to_supabase fmt ep w)"
  define w' where "w' = snd (load_to_supabase fmt ep w)"
  have run: "load_to_supabase fmt ep w = (res, w')" by (simp add: res_def w'_def)
  have main: "(\<exists>e. res = Inl e) \<and> length (posted w') \<le> length (posted w) + j div 20 \<and>
     (\<forall>df. normalize_dates fmt df0 = Inr df \<and> (\<forall>i<j. \<exists>v. row_values (record_at df i) = Inr v) \<and>
       (\<forall>k<j div 20. \<forall>q. ep (length (posted w) + k) q = Answered True) \<longrightarrow>
       res = Inl AttributeError \<and> length (posted w') = length (posted w) + j div 20)"
  proof (cases "normalize_dates fmt df0")
    case (Inl e)
    with assms(1) run show ?thesis by (auto simp: load_to_supabase_def)
  next
    case (Inr df)
    note nd = normalize_dates_Inr[OF Inr]
    define n where "n = length (rows df)"
    have jn: "j < n" using assms(2) nd(2) by (simp add: n_def)
    have cols: "''date'' \<in> set (columns df)" "''title'' \<in> set (columns df)" "''explanation'' \<in> set (columns df)"
      using nd(1,3) assms(3,4) by simp_all
    have "cell_at (rows df ! j) ''title'' = cell_at (rows df0 ! j) ''title''"
      "cell_at (rows df ! j) ''explanation'' = cell_at (rows df0 ! j) ''explanation''"
      using nd(4)[OF assms(2)] by (simp_all add: cell_at_def)
    with assms(5) have "\<not> notnull (cell_at (rows df ! j) ''title'') \<or> \<not> notnull (cell_at (rows df ! j) ''explanation'')"
      by simp
    from row_values_null[OF cols this] have bad: "row_values (record_at df j) = Inl AttributeError"
      by (simp add: record_at_def)
    let ?i = "20 * (j div 20)"
    let ?b = "batch_at df ?i"
    have pos: "j mod 20 < length ?b" "?b ! (j mod 20) = record_at df j"
      using batch_at_nth[of j df] jn by (simp_all add: n_def)
    then have "record_at df j \<in> set ?b" by (metis nth_mem)
    from build_values_fails[OF this bad] obtain e' where e': "batch_statement df ?i = Inl e'"
      by (auto simp: batch_statement_def)
    have m: "j div 20 < (n + 19) div 20" using jn by simp
    define pre where "pre = map (\<lambda>k. 20 * k) [0..<j div 20]"
    define post where "post = map (\<lambda>k. 20 * k) [Suc (j div 20)..<(n + 19) div 20]"
    have "[0..<(n + 19) div 20] = [0..<j div 20] @ (j div 20) # [Suc (j div 20)..<(n + 19) div 20]"
      using m by (metis le0 upt_add_eq_append upt_conv_Cons le_add_diff_inverse less_imp_le_nat)
    then have split: "range_from 0 n = pre @ ?i # post"
      by (simp add: range_from_0 pre_def post_def)
    have lp: "length pre = j div 20" by (simp add: pre_def)
    obtain r1 w1 where p: "load_loop ep df pre w = (r1, w1)" by (cases "load_loop ep df pre w")
    from posted_grows[OF p] lp have g: "length (posted w1) \<le> length (posted w) + j div 20" by auto
    have run': "load_loop ep df (pre @ ?i # post) w = (res, w')"
      using run assms(1) Inr split by (simp add: load_to_supabase_def n_def)
    have first: "(\<exists>e. res = Inl e) \<and> length (posted w') \<le> length (posted w) + j div 20"
    proof (cases r1)
      case (Inl e)
      with run' p g show ?thesis by (auto simp: load_loop_append)
    next
      case (Inr u)
      with run' p g e' show ?thesis by (auto simp: load_loop_append)
    qed
    have second: "res = Inl AttributeError \<and> length (posted w') = length (posted w) + j div 20"
      if ok: "\<forall>i<j. \<exists>v. row_values (record_at df i) = Inr v"
        and acc: "\<forall>k<j div 20. \<forall>q. ep (length (posted w) + k) q = Answered True"
    proof -
      have "\<forall>i\<in>set pre. \<exists>q. batch_statement df i = Inr q"
      proof
        fix i assume "i \<in> set pre"
        then obtain k where k: "i = 20 * k" "k < j div 20" by (auto simp: pre_def)
        have "\<forall>r\<in>set (batch_at df i). \<exists>v. row_values r = Inr v"
        proof
          fix r assume "r \<in> set (batch_at df i)"
          then obtain x where x: "x < length (batch_at df i)" "r = batch_at df i ! x"
            by (metis in_set_conv_nth)
          from x(1) have "x < 20 \<and> x < n - i"
            by (simp add: batch_at_def iloc_def batch_size_def n_def)
          then have x20: "x < 20" "i + x < n" by linarith+
          have "20 * k + 20 \<le> 20 * (j div 20)" using k(2) by simp
          also have "\<dots> \<le> j" by simp
          finally have "i + x < j" using x20 k(1) by simp
          moreover have "r = record_at df (i + x)"
            using x x20 by (simp add: batch_at_def iloc_def batch_size_def record_at_def n_def)
          ultimately show "\<exists>v. row_values r = Inr v" using ok by simp
        qed
        from build_values_all[OF this] show "\<exists>q. batch_statement df i = Inr q"
          by (auto simp: batch_statement_def)
      qed
      from load_loop_accepted[OF this, of ep w] acc lp have r1: "r1 = Inr ()"
        using p by simp
      from posted_grows[OF p] obtain qs where qs: "posted w1 = posted w @ qs" by auto
      from load_loop_success[OF p[unfolded r1]]
      have "map (batch_statement df) pre = map Inr (drop (length (posted w)) (posted w1))"
        by simp
      then have "length pre = length qs" unfolding qs by (metis append_eq_conv_conj length_map)
      with qs lp have l1: "length (posted w1) = length (posted w) + j div 20" by simp
      have "\<forall>x\<in>set (take (j mod 20) ?b). \<exists>v. row_values x = Inr v"
      proof
        fix r assume "r \<in> set (take (j mod 20) ?b)"
        then obtain x where x: "x < j mod 20" "r = ?b ! x"
          using pos(1) by (auto simp: in_set_conv_nth)
        have "?i + x < j" using x(1) by (metis add_less_cancel_left mult_div_mod_eq)
        moreover have "r = record_at df (?i + x)"
          using x pos(1) by (simp add: batch_at_def iloc_def batch_size_def record_at_def)
        ultimately show "\<exists>v. row_values r = Inr v" using ok by simp
      qed
      from build_values_first_error[OF this bad, of "drop (Suc (j mod 20)) ?b"]
      have "build_values (take (j mod 20) ?b @ ?b ! (j mod 20) # drop (Suc (j mod 20)) ?b) = Inl AttributeError"
        using pos(2) by simp
      then have "build_values ?b = Inl AttributeError"
        using id_take_nth_drop[OF pos(1)] by simp
      then have "batch_statement df ?i = Inl AttributeError" by (simp add: batch_statement_def)
      with run' p r1 l1 show ?thesis by (simp add: load_loop_append)
    qed
    from first second Inr show ?thesis by auto
  qed
  have rt: "res \<noteq> Inl RuntimeError" if h: "\<forall>k<j div 20. \<forall>q. ep (length (posted w) + k) q \<noteq> Answered False"
  proof
    assume "res = Inl RuntimeError"
    with run have r: "load_to_supabase fmt ep w = (Inl RuntimeError, w')" by simp
    have "normalize_dates fmt df0 \<noteq> Inl RuntimeError"
      by (auto simp: normalize_dates_def split: option.splits)
    with r assms(1) obtain df where d: "normalize_dates fmt df0 = Inr df"
      by (cases "normalize_dates fmt df0") (auto simp: load_to_supabase_def)
    from r have "load_loop ep df (range_from 0 (length (rows df))) w = (Inl RuntimeError, w')"
      unfolding load_unfold[OF assms(1) d] .
    from load_loop_RuntimeError[OF this] main
    have "length (posted w) < length (posted w')" "length (posted w') \<le> length (posted w) + j div 20"
      "ep (length (posted w') - 1) (posted w' ! (length (posted w') - 1)) = Answered False"
      by simp_all
    moreover define k where "k = length (posted w') - 1 - length (posted w)"
    ultimately have "length (posted w') - 1 = length (posted w) + k" "k < j div 20"
      "ep (length (posted w') - 1) (posted w' ! (length (posted w') - 1)) = Answered False"
      by simp_all
    with h show False by metis
  qed
  from main rt show ?thesis unfolding res_def w'_def by blast
qed

theorem null_title_fails_before_post_witness:
  "fst (load_to_supabase midnight accept_all (fresh_world [row_orion, row_untitled])) = Inl AttributeError \<and>
   posted (snd (load_to_supabase midnight accept_all (fresh_world [row_orion, row_untitled]))) = [] \<and>
   fst (load_to_supabase midnight accept_all (fresh_world (replicate 20 row_orion @ [row_untitled]))) =
     Inl AttributeError \<and>
   length (posted (snd (load_to_supabase midnight accept_all
     (fresh_world (replicate 20 row_orion @ [row_untitled]))))) = 1"
proof -
  have first: "fst (load_to_supabase midnight accept_all (fresh_world [row_orion, row_untitled])) = Inl AttributeError \<and>
   posted (snd (load_to_supabase midnight accept_all (fresh_world [row_orion, row_untitled]))) = []"
  proof -
    let ?raw = "staged_frame [row_orion, row_untitled]"
    let ?nrm = "staged_frame [at_midnight row_orion, at_midnight row_untitled]"
    let ?w = "fresh_world [row_orion, row_untitled]"
    have f: "staged_file ?w = Some ?raw" by (simp add: fresh_world_def)
    have j: "1 < length (rows ?raw)" by (simp add: staged_frame_def)
    have t: "''title'' \<in> set (columns ?raw)" "''explanation'' \<in> set (columns ?raw)"
      by (simp_all add: staged_frame_def staged_cols_def)
    have b: "\<not> notnull (cell_at (rows ?raw ! 1) ''title'') \<or> \<not> notnull (cell_at (rows ?raw ! 1) ''explanation'')"
      by (simp add: staged_frame_def row_untitled_def cell_at_def notnull_def)
    have d: "normalize_dates midnight ?raw = Inr ?nrm" by (simp add: normalize_midnight)
    have ok: "\<forall>i<1. \<exists>v. row_values (record_at ?nrm i) = Inr v"
      by (simp add: record_at_def staged_frame_def row_values_orion)
    have p: "posted ?w = []" by (simp add: fresh_world_def)
    from null_title_fails_before_post[OF f j t b, of midnight accept_all] d ok p show ?thesis by simp
  qed
  have second: "fst (load_to_supabase midnight accept_all (fresh_world (replicate 20 row_orion @ [row_untitled]))) =
     Inl AttributeError \<and>
   length (posted (snd (load_to_supabase midnight accept_all
     (fresh_world (replicate 20 row_orion @ [row_untitled]))))) = 1"
  proof -
    let ?raw = "staged_frame (replicate 20 row_orion @ [row_untitled])"
    let ?nrm = "staged_frame (replicate 20 (at_midnight row_orion) @ [at_midnight row_untitled])"
    let ?w = "fresh_world (replicate 20 row_orion @ [row_untitled])"
    have f: "staged_file ?w = Some ?raw" by (simp add: fresh_world_def)
    have j: "20 < length (rows ?raw)" by (simp add: staged_frame_def)
    have t: "''title'' \<in> set (columns ?raw)" "''explanation'' \<in> set (columns ?raw)"
      by (simp_all add: staged_frame_def staged_cols_def)
    have b: "\<not> notnull (cell_at (rows ?raw ! 20) ''title'') \<or> \<not> notnull (cell_at (rows ?raw ! 20) ''explanation'')"
      by (simp add: staged_frame_def nth_append row_untitled_def cell_at_def notnull_def)
    have d: "normalize_dates midnight ?raw = Inr ?nrm" by (simp add: normalize_midnight)
    have ok: "\<forall>i<20. \<exists>v. row_values (record_at ?nrm i) = Inr v"
      by (simp add: record_at_def staged_frame_def nth_append row_values_orion)
    have a: "\<forall>k<20 div 20. \<forall>q. accept_all (length (posted ?w) + k) q = Answered True"
      by (simp add: accept_all_def)
    have p: "posted ?w = []" by (simp add: fresh_world_def)
    from null_title_fails_before_post[OF f j t b, of midnight accept_all] d ok a p show ?thesis by simp
  qed
  from first second show ?thesis by simp
qed

end
